theory Spec2Isabelle
  imports Complex_Main "HOL-Library.Sublist"
begin

section \<open>Data model of the drawing server\<close>

text \<open>
  The server exists twice in the repository, as \<^verbatim>\<open>src/pages/api/socket.ts\<close> and as
  \<^verbatim>\<open>src/server.js\<close>; the connection handler and the per-socket event handlers are the
  same text in both, so one model covers both files.

  JavaScript numbers that are coordinates, radii and widths are modelled as \<^typ>\<open>real\<close>
  (the payloads arrive as JSON, which carries finite numbers only); \<^verbatim>\<open>Date.now()\<close> and
  \<^verbatim>\<open>colorIndex\<close> are natural numbers (a JavaScript number counts exactly up to \<open>2\<^sup>5\<^sup>3\<close>,
  which no run of connections reaches). Payloads are taken to have the shape that the
  TypeScript handler signatures declare. An optional field (\<^verbatim>\<open>pressure?\<close>) is an
  \<^typ>\<open>'a option\<close>.
\<close>

record point =
  pt_x :: real
  pt_y :: real
  pt_pressure :: "real option"

datatype op_type = Draw | Erase

text \<open>\<^verbatim>\<open>interface DrawingOperation\<close>\<close>

record DrawingOperation =
  op_id :: string
  op_userId :: string
  op_type :: op_type
  op_points :: "point list"
  op_color :: string
  op_strokeWidth :: real
  op_timestamp :: nat

record cursor =
  cur_x :: real
  cur_y :: real

text \<open>\<^verbatim>\<open>interface User\<close>; \<^verbatim>\<open>cursor: ... | null\<close> is an option.\<close>

record User =
  user_id :: string
  user_name :: string
  user_color :: string
  user_cursor :: "cursor option"

text \<open>
  The payload of \<^verbatim>\<open>draw-start\<close> is \<^verbatim>\<open>Omit<DrawingOperation, 'timestamp'>\<close>.
\<close>

record draw_start_data =
  ds_id :: string
  ds_userId :: string
  ds_type :: op_type
  ds_points :: "point list"
  ds_color :: string
  ds_strokeWidth :: real

record draw_move_data =
  dm_operationId :: string
  dm_points :: "point list"

text \<open>
  A point of an \<^verbatim>\<open>erase\<close> payload. The handler reads the radius through
  \<^verbatim>\<open>data.points[0]?.radius || 20\<close>, the one place where the source itself provides
  for a missing value, so the radius is an option here: \<open>None\<close> is a point that
  carries no radius.
\<close>

record erase_point =
  ep_x :: real
  ep_y :: real
  ep_radius :: "real option"

record erase_data =
  er_operationId :: string
  er_points :: "erase_point list"

text \<open>The events a socket can deliver to the server, \<open>Connection\<close> being \<^verbatim>\<open>io.on('connection')\<close>.\<close>

datatype client_event =
    Connection
  | DrawStart draw_start_data
  | DrawMove draw_move_data
  | DrawEnd string
  | CursorMove cursor
  | GetUser string
  | Undo
  | Redo DrawingOperation
  | EraseEv erase_data
  | Disconnect

text \<open>
  The three ways the handlers send: \<^verbatim>\<open>socket.emit\<close> (and the acknowledgement callback
  of \<^verbatim>\<open>get-user\<close>), \<^verbatim>\<open>socket.broadcast.emit\<close> and \<^verbatim>\<open>io.emit\<close>.
\<close>

datatype audience = ToSender | AllButSender | Everyone

datatype server_msg =
    UserAssigned string string string   \<comment> \<open>\<^verbatim>\<open>user-assigned {userId, color, name}\<close>\<close>
  | InitialState "User list" "DrawingOperation list"
  | UserJoined User
  | DrawStartMsg DrawingOperation
  | DrawMoveMsg draw_move_data
  | DrawEndMsg string
  | UserCursor string cursor string string string
      \<comment> \<open>\<^verbatim>\<open>user-cursor {userId, cursor, user: {id, name, color}}\<close>\<close>
  | GetUserReply "User option"
  | OperationRemoved string
  | OperationAdded DrawingOperation
  | EraseMsg DrawingOperation
  | UserLeft string

type_synonym emission = "audience \<times> server_msg"

text \<open>
  The module-level variables. \<^verbatim>\<open>users\<close> is a JavaScript \<^verbatim>\<open>Map\<close>, which keeps its
  entries in insertion order and has a \<^verbatim>\<open>size\<close>: an association list with one entry
  per key.
\<close>

record server_state =
  drawingHistory :: "DrawingOperation list"
  users :: "(string \<times> User) list"
  colorIndex :: nat

definition userColors :: "string list" where
  "userColors = [''#FF6B6B'', ''#4ECDC4'', ''#45B7D1'', ''#FFA07A'',
                 ''#98D8C8'', ''#F7DC6F'', ''#BB8FCE'', ''#85C1E2'']"

definition initial_state :: server_state where
  "initial_state = \<lparr>drawingHistory = [], users = [], colorIndex = 0\<rparr>"

subsection \<open>The operations of \<^verbatim>\<open>Map\<close> that the server uses\<close>

fun map_get :: "(string \<times> 'v) list \<Rightarrow> string \<Rightarrow> 'v option" where
  "map_get [] k = None"
| "map_get ((k', v) # m) k = (if k' = k then Some v else map_get m k)"

text \<open>\<^verbatim>\<open>Map.set\<close>: an existing key keeps its place, a new key goes to the end.\<close>

fun map_set :: "(string \<times> 'v) list \<Rightarrow> string \<Rightarrow> 'v \<Rightarrow> (string \<times> 'v) list" where
  "map_set [] k v = [(k, v)]"
| "map_set ((k', v') # m) k v = (if k' = k then (k, v) # m else (k', v') # map_set m k v)"

text \<open>\<^verbatim>\<open>Map.delete\<close>: afterwards the key has no entry.\<close>

fun map_delete :: "(string \<times> 'v) list \<Rightarrow> string \<Rightarrow> (string \<times> 'v) list" where
  "map_delete [] k = []"
| "map_delete ((k', v') # m) k = (if k' = k then map_delete m k else (k', v') # map_delete m k)"

definition map_size :: "(string \<times> 'v) list \<Rightarrow> nat" where
  "map_size m = length m"

definition map_values :: "(string \<times> 'v) list \<Rightarrow> 'v list" where
  "map_values m = map snd m"

subsection \<open>Number to string, as the template literal does it\<close>

text \<open>
  \<^verbatim>\<open>`User ${users.size + 1}`\<close> prints a whole number below \<open>10\<^sup>2\<^sup>1\<close> as its decimal
  digits, and the size of a registry stays far below that.
\<close>

definition digit_char :: "nat \<Rightarrow> char" where
  "digit_char d = ''0123456789'' ! d"

fun string_of_nat :: "nat \<Rightarrow> string" where
  "string_of_nat n =
     (if n < 10 then [digit_char n] else string_of_nat (n div 10) @ [digit_char (n mod 10)])"

declare string_of_nat.simps [simp del]

subsection \<open>\<^verbatim>\<open>Array.prototype.find\<close>, as the index of the first match\<close>

fun find_first :: "('a \<Rightarrow> bool) \<Rightarrow> 'a list \<Rightarrow> nat option" where
  "find_first P [] = None"
| "find_first P (x # xs) =
     (if P x then Some 0 else (case find_first P xs of None \<Rightarrow> None | Some i \<Rightarrow> Some (Suc i)))"

section \<open>The handlers\<close>

text \<open>
  Every handler takes the id of the socket it is registered on (\<^verbatim>\<open>socket.id\<close>), the
  clock where it reads it, its payload and the state, and returns the new state with the
  list of messages it emits, in order.
\<close>

definition on_connection :: "string \<Rightarrow> server_state \<Rightarrow> server_state \<times> emission list" where
  "on_connection sid s =
     (let color = userColors ! (colorIndex s mod length userColors);
          s1 = s\<lparr>colorIndex := colorIndex s + 1\<rparr>;
          userName = ''User '' @ string_of_nat (map_size (users s1) + 1);
          user = \<lparr>user_id = sid, user_name = userName, user_color = color, user_cursor = None\<rparr>;
          s2 = s1\<lparr>users := map_set (users s1) sid user\<rparr>
      in (s2, [(ToSender, UserAssigned sid color userName),
               (ToSender, InitialState (map_values (users s2)) (drawingHistory s2)),
               (AllButSender, UserJoined user)]))"

text \<open>\<^verbatim>\<open>{ ...data, timestamp: Date.now() }\<close>\<close>

definition draw_start_operation :: "nat \<Rightarrow> draw_start_data \<Rightarrow> DrawingOperation" where
  "draw_start_operation now d =
     \<lparr>op_id = ds_id d, op_userId = ds_userId d, op_type = ds_type d,
      op_points = ds_points d, op_color = ds_color d,
      op_strokeWidth = ds_strokeWidth d, op_timestamp = now\<rparr>"

definition on_draw_start ::
  "nat \<Rightarrow> draw_start_data \<Rightarrow> server_state \<Rightarrow> server_state \<times> emission list" where
  "on_draw_start now d s =
     (let operation = draw_start_operation now d
      in (s\<lparr>drawingHistory := drawingHistory s @ [operation]\<rparr>,
          [(AllButSender, DrawStartMsg operation)]))"

text \<open>
  \<^verbatim>\<open>find\<close> returns a reference to the first matching element and \<^verbatim>\<open>push\<close> changes
  that object in place. No two entries of the log are the same object (each is built by
  a handler or decoded from one message), so the change is an update of the log at the
  index found.
\<close>

definition on_draw_move :: "draw_move_data \<Rightarrow> server_state \<Rightarrow> server_state \<times> emission list" where
  "on_draw_move d s =
     (let h = drawingHistory s;
          s' = (case find_first (\<lambda>opn. op_id opn = dm_operationId d) h of
                  Some i \<Rightarrow> s\<lparr>drawingHistory :=
                              h[i := (h ! i)\<lparr>op_points := op_points (h ! i) @ dm_points d\<rparr>]\<rparr>
                | None \<Rightarrow> s)
      in (s', [(AllButSender, DrawMoveMsg d)]))"

definition on_draw_end :: "string \<Rightarrow> server_state \<Rightarrow> server_state \<times> emission list" where
  "on_draw_end operationId s = (s, [(AllButSender, DrawEndMsg operationId)])"

definition on_cursor_move ::
  "string \<Rightarrow> cursor \<Rightarrow> server_state \<Rightarrow> server_state \<times> emission list" where
  "on_cursor_move sid c s =
     (case map_get (users s) sid of
        Some user \<Rightarrow>
          (s\<lparr>users := map_set (users s) sid (user\<lparr>user_cursor := Some c\<rparr>)\<rparr>,
           [(AllButSender, UserCursor sid c (user_id user) (user_name user) (user_color user))])
      | None \<Rightarrow> (s, []))"

definition on_get_user :: "string \<Rightarrow> server_state \<Rightarrow> server_state \<times> emission list" where
  "on_get_user userId s = (s, [(ToSender, GetUserReply (map_get (users s) userId))])"

definition on_undo :: "server_state \<Rightarrow> server_state \<times> emission list" where
  "on_undo s =
     (if length (drawingHistory s) > 0
      then (let removedOp = last (drawingHistory s)
            in (s\<lparr>drawingHistory := butlast (drawingHistory s)\<rparr>,
                [(Everyone, OperationRemoved (op_id removedOp))]))
      else (s, []))"

definition on_redo :: "DrawingOperation \<Rightarrow> server_state \<Rightarrow> server_state \<times> emission list" where
  "on_redo operation s =
     (s\<lparr>drawingHistory := drawingHistory s @ [operation]\<rparr>,
      [(Everyone, OperationAdded operation)])"

text \<open>
  \<^verbatim>\<open>data.points[0]?.radius || 20\<close>: \<^verbatim>\<open>undefined\<close> for an empty list or a missing
  radius, and \<^verbatim>\<open>||\<close> takes its right operand for every falsy left one, which for a
  number includes \<^verbatim>\<open>0\<close>.
\<close>

definition erase_strokeWidth :: "erase_point list \<Rightarrow> real" where
  "erase_strokeWidth ps =
     (case ps of
        [] \<Rightarrow> 20
      | p # _ \<Rightarrow> (case ep_radius p of
                    None \<Rightarrow> 20
                  | Some r \<Rightarrow> if r = 0 then 20 else r))"

definition erase_operation :: "string \<Rightarrow> nat \<Rightarrow> erase_data \<Rightarrow> DrawingOperation" where
  "erase_operation sid now d =
     \<lparr>op_id = er_operationId d, op_userId = sid, op_type = Erase,
      op_points = map (\<lambda>p. \<lparr>pt_x = ep_x p, pt_y = ep_y p, pt_pressure = None\<rparr>) (er_points d),
      op_color = ''#FFFFFF'',
      op_strokeWidth = erase_strokeWidth (er_points d),
      op_timestamp = now\<rparr>"

definition on_erase ::
  "string \<Rightarrow> nat \<Rightarrow> erase_data \<Rightarrow> server_state \<Rightarrow> server_state \<times> emission list" where
  "on_erase sid now d s =
     (let operation = erase_operation sid now d
      in (s\<lparr>drawingHistory := drawingHistory s @ [operation]\<rparr>,
          [(AllButSender, EraseMsg operation)]))"

definition on_disconnect :: "string \<Rightarrow> server_state \<Rightarrow> server_state \<times> emission list" where
  "on_disconnect sid s =
     (s\<lparr>users := map_delete (users s) sid\<rparr>, [(AllButSender, UserLeft sid)])"

fun handle :: "string \<Rightarrow> nat \<Rightarrow> client_event \<Rightarrow> server_state \<Rightarrow> server_state \<times> emission list" where
  "handle sid now Connection s = on_connection sid s"
| "handle sid now (DrawStart d) s = on_draw_start now d s"
| "handle sid now (DrawMove d) s = on_draw_move d s"
| "handle sid now (DrawEnd i) s = on_draw_end i s"
| "handle sid now (CursorMove c) s = on_cursor_move sid c s"
| "handle sid now (GetUser u) s = on_get_user u s"
| "handle sid now Undo s = on_undo s"
| "handle sid now (Redo opn) s = on_redo opn s"
| "handle sid now (EraseEv d) s = on_erase sid now d s"
| "handle sid now Disconnect s = on_disconnect sid s"

text \<open>
  The server runs one handler to completion per inbound event. A trace is the list of
  events in arrival order, each with the socket it came from and the clock at arrival.
\<close>

type_synonym trace = "(string \<times> nat \<times> client_event) list"

fun run :: "trace \<Rightarrow> server_state \<Rightarrow> server_state" where
  "run [] s = s"
| "run ((sid, now, ev) # tr) s = run tr (fst (handle sid now ev s))"

fun outputs :: "trace \<Rightarrow> server_state \<Rightarrow> emission list" where
  "outputs [] s = []"
| "outputs ((sid, now, ev) # tr) s =
     snd (handle sid now ev s) @ outputs tr (fst (handle sid now ev s))"

subsection \<open>Who receives an emission\<close>

text \<open>
  What socket.io does with the three kinds of emit, given the ids of the sockets that
  are connected: \<^verbatim>\<open>socket.emit\<close> reaches the socket itself, \<^verbatim>\<open>socket.broadcast.emit\<close>
  every connected socket but it, \<^verbatim>\<open>io.emit\<close> every connected socket.
\<close>

fun recipients :: "string list \<Rightarrow> string \<Rightarrow> audience \<Rightarrow> string list" where
  "recipients conns sid ToSender = [sid]"
| "recipients conns sid AllButSender = filter (\<lambda>c. c \<noteq> sid) conns"
| "recipients conns sid Everyone = conns"

section \<open>Traces and what they append\<close>

text \<open>An operation without its points, which \<^verbatim>\<open>draw-move\<close> changes after creation.\<close>

definition op_header :: "DrawingOperation \<Rightarrow> DrawingOperation" where
  "op_header opn = opn\<lparr>op_points := []\<rparr>"

text \<open>
  The operations that the start events of a trace create (\<^verbatim>\<open>draw-start\<close> and
  \<^verbatim>\<open>erase\<close>), in arrival order.
\<close>

fun started :: "trace \<Rightarrow> DrawingOperation list" where
  "started [] = []"
| "started ((sid, now, DrawStart d) # tr) = draw_start_operation now d # started tr"
| "started ((sid, now, EraseEv d) # tr) = erase_operation sid now d # started tr"
| "started (e # tr) = started tr"

text \<open>The same with the operations that \<^verbatim>\<open>redo\<close> events supply.\<close>

fun appended :: "trace \<Rightarrow> DrawingOperation list" where
  "appended [] = []"
| "appended ((sid, now, DrawStart d) # tr) = draw_start_operation now d # appended tr"
| "appended ((sid, now, EraseEv d) # tr) = erase_operation sid now d # appended tr"
| "appended ((sid, now, Redo opn) # tr) = opn # appended tr"
| "appended (e # tr) = appended tr"

fun is_redo :: "client_event \<Rightarrow> bool" where
  "is_redo (Redo opn) = True"
| "is_redo ev = False"

definition no_redo :: "trace \<Rightarrow> bool" where
  "no_redo tr = list_all (\<lambda>(sid, now, ev). \<not> is_redo ev) tr"

text \<open>The number of \<^verbatim>\<open>connection\<close> events of a trace.\<close>

fun connections :: "trace \<Rightarrow> nat" where
  "connections [] = 0"
| "connections ((sid, now, Connection) # tr) = Suc (connections tr)"
| "connections (e # tr) = connections tr"

text \<open>The colours that the \<^verbatim>\<open>user-assigned\<close> messages of an output carry, in order.\<close>

fun assigned_colors :: "emission list \<Rightarrow> string list" where
  "assigned_colors [] = []"
| "assigned_colors ((a, UserAssigned uid color name) # es) = color # assigned_colors es"
| "assigned_colors (e # es) = assigned_colors es"

text \<open>A run of \<^verbatim>\<open>undo\<close> events, one per given socket and arrival time.\<close>

definition undo_trace :: "(string \<times> nat) list \<Rightarrow> trace" where
  "undo_trace senders = map (\<lambda>(sid, now). (sid, now, Undo)) senders"

text \<open>The index of the first entry equal to a given operation.\<close>

definition index_of :: "DrawingOperation \<Rightarrow> DrawingOperation list \<Rightarrow> nat option" where
  "index_of opn h = find_first (\<lambda>x. x = opn) h"

subsection \<open>Sample data\<close>

definition sample_op :: "string \<Rightarrow> string \<Rightarrow> DrawingOperation" where
  "sample_op i u = \<lparr>op_id = i, op_userId = u, op_type = Draw, op_points = [],
                     op_color = ''#000000'', op_strokeWidth = 2, op_timestamp = 0\<rparr>"

definition sample_start :: "string \<Rightarrow> string \<Rightarrow> draw_start_data" where
  "sample_start i u = \<lparr>ds_id = i, ds_userId = u, ds_type = Draw, ds_points = [],
                        ds_color = ''#000000'', ds_strokeWidth = 2\<rparr>"

definition sample_point :: "real \<Rightarrow> real \<Rightarrow> point" where
  "sample_point a b = \<lparr>pt_x = a, pt_y = b, pt_pressure = None\<rparr>"

definition sample_state :: "DrawingOperation list \<Rightarrow> server_state" where
  "sample_state h = \<lparr>drawingHistory = h, users = [], colorIndex = 0\<rparr>"

text \<open>Three users join, the first two leave, two more join.\<close>

definition churn_trace :: trace where
  "churn_trace =
     [(''a'', 0, Connection), (''b'', 1, Connection), (''c'', 2, Connection),
      (''a'', 3, Disconnect), (''b'', 4, Disconnect),
      (''d'', 5, Connection), (''e'', 6, Connection)]"

text \<open>Two strokes start, both are undone, and they are redone in the other order.\<close>

definition reorder_trace :: trace where
  "reorder_trace =
     [(''a'', 0, DrawStart (sample_start ''p'' ''a'')),
      (''a'', 0, DrawStart (sample_start ''q'' ''a'')),
      (''a'', 1, Undo), (''a'', 2, Undo),
      (''a'', 3, Redo (sample_op ''q'' ''a'')),
      (''a'', 4, Redo (sample_op ''p'' ''a''))]"

definition two_strokes :: trace where
  "two_strokes = [(''a'', 0, DrawStart (sample_start ''p'' ''a'')),
                  (''a'', 0, DrawStart (sample_start ''q'' ''a''))]"

definition nine_connections :: trace where
  "nine_connections =
     [(''c1'', 0, Connection), (''c2'', 0, Connection), (''c3'', 0, Connection),
      (''c4'', 0, Connection), (''c5'', 0, Connection), (''c6'', 0, Connection),
      (''c7'', 0, Connection), (''c8'', 0, Connection), (''c9'', 0, Connection)]"

section \<open>Facts about the containers and the handlers\<close>

lemma find_first_Some_iff:
  "find_first P xs = Some i \<longleftrightarrow> i < length xs \<and> P (xs ! i) \<and> (\<forall>k<i. \<not> P (xs ! k))"
proof (induction xs arbitrary: i)
  case Nil
  then show ?case by simp
next
  case (Cons x xs)
  show ?case
  proof (cases "P x")
    case True
    then show ?thesis by (cases i) auto
  next
    case False
    show ?thesis
    proof (cases i)
      case 0
      with False show ?thesis by (simp split: option.splits)
    next
      case (Suc j)
      have "(\<forall>k<Suc j. \<not> P ((x # xs) ! k)) \<longleftrightarrow> (\<forall>k<j. \<not> P (xs ! k))"
        using False by (auto simp: less_Suc_eq_0_disj)
      with False Suc Cons.IH [of j] show ?thesis
        by (auto split: option.splits)
    qed
  qed
qed

lemma find_first_None_iff: "find_first P xs = None \<longleftrightarrow> (\<forall>x\<in>set xs. \<not> P x)"
  by (induction xs) (auto split: option.splits)

lemma map_get_map_set_same: "map_get (map_set m k v) k = Some v"
  by (induction m) auto

lemma map_get_map_set_other: "k' \<noteq> k \<Longrightarrow> map_get (map_set m k v) k' = map_get m k'"
  by (induction m) auto

lemma map_get_map_delete_same: "map_get (map_delete m k) k = None"
  by (induction m) auto

lemma map_get_map_delete_other: "k' \<noteq> k \<Longrightarrow> map_get (map_delete m k) k' = map_get m k'"
  by (induction m) auto

text \<open>What each handler does to the log.\<close>

lemma history_undo: "drawingHistory (fst (on_undo s)) = butlast (drawingHistory s)"
  by (simp add: on_undo_def)

lemma history_unchanged:
  "drawingHistory (fst (on_connection sid s)) = drawingHistory s"
  "drawingHistory (fst (on_draw_end i s)) = drawingHistory s"
  "drawingHistory (fst (on_cursor_move sid c s)) = drawingHistory s"
  "drawingHistory (fst (on_get_user u s)) = drawingHistory s"
  "drawingHistory (fst (on_disconnect sid s)) = drawingHistory s"
  by (simp_all add: on_connection_def on_draw_end_def on_cursor_move_def on_get_user_def
        on_disconnect_def Let_def split: option.splits)

lemma history_appended:
  "drawingHistory (fst (on_draw_start now d s)) = drawingHistory s @ [draw_start_operation now d]"
  "drawingHistory (fst (on_erase sid now e s)) = drawingHistory s @ [erase_operation sid now e]"
  "drawingHistory (fst (on_redo opn s)) = drawingHistory s @ [opn]"
  by (simp_all add: on_draw_start_def on_erase_def on_redo_def Let_def)

lemma header_update_points [simp]: "op_header (opn\<lparr>op_points := ps\<rparr>) = op_header opn"
  by (simp add: op_header_def)

lemma headers_draw_move:
  "map op_header (drawingHistory (fst (on_draw_move d s))) = map op_header (drawingHistory s)"
proof (cases "find_first (\<lambda>opn. op_id opn = dm_operationId d) (drawingHistory s)")
  case None
  then show ?thesis by (simp add: on_draw_move_def)
next
  case (Some i)
  then have "i < length (drawingHistory s)"
    by (simp add: find_first_Some_iff)
  then have "(map op_header (drawingHistory s))[i := op_header (drawingHistory s ! i)]
               = map op_header (drawingHistory s)"
    by (simp add: list_update_same_conv)
  with Some show ?thesis
    by (simp add: on_draw_move_def Let_def map_update)
qed

lemma subseq_butlast: "subseq (butlast xs) xs"
  by (induction xs) auto

lemma headers_run:
  "subseq (map op_header (drawingHistory (run tr s)))
          (map op_header (drawingHistory s) @ map op_header (appended tr))"
proof (induction tr arbitrary: s)
  case Nil
  then show ?case by simp
next
  case (Cons e tr)
  obtain sid now ev where e: "e = (sid, now, ev)" by (cases e)
  let ?s' = "fst (handle sid now ev s)"
  let ?H = "\<lambda>st. map op_header (drawingHistory st)"
  have ih: "subseq (?H (run tr ?s')) (?H ?s' @ map op_header (appended tr))"
    by (rule Cons.IH)
  have step: "subseq (?H ?s' @ map op_header (appended tr))
                     (?H s @ map op_header (appended (e # tr)))"
  proof (cases ev)
    case Undo
    have "subseq (?H ?s') (?H s)"
      using Undo by (simp add: history_undo map_butlast subseq_butlast)
    then show ?thesis using Undo e by (simp add: subseq_append')
  next
    case (DrawMove d)
    then show ?thesis using e by (simp add: headers_draw_move)
  qed (simp_all add: e history_unchanged history_appended)
  from ih step show ?case
    using e subseq_order.order_trans by fastforce
qed

lemma appended_no_redo: "no_redo tr \<Longrightarrow> appended tr = started tr"
proof (induction tr)
  case Nil
  then show ?case by simp
next
  case (Cons e tr)
  obtain sid now ev where e: "e = (sid, now, ev)" by (cases e)
  from Cons.prems e have "\<not> is_redo ev" "no_redo tr"
    by (simp_all add: no_redo_def)
  with Cons.IH e show ?case by (cases ev) simp_all
qed

text \<open>What each handler does to the colour index and which colours it announces.\<close>

lemma assigned_colors_append:
  "assigned_colors (es @ fs) = assigned_colors es @ assigned_colors fs"
  by (induction es rule: assigned_colors.induct) simp_all

lemma connection_step:
  "assigned_colors (snd (on_connection sid s)) = [userColors ! (colorIndex s mod 8)]"
  "colorIndex (fst (on_connection sid s)) = Suc (colorIndex s)"
  by (simp_all add: on_connection_def Let_def userColors_def)

lemma other_step:
  "ev \<noteq> Connection \<Longrightarrow> assigned_colors (snd (handle sid now ev s)) = []"
  "ev \<noteq> Connection \<Longrightarrow> colorIndex (fst (handle sid now ev s)) = colorIndex s"
  by (cases ev;
      simp add: on_draw_start_def on_draw_move_def on_draw_end_def on_cursor_move_def
        on_get_user_def on_undo_def on_redo_def on_erase_def on_disconnect_def Let_def
        split: option.splits)+

lemma connections_step:
  "connections ((sid, now, ev) # tr) = (if ev = Connection then Suc (connections tr) else connections tr)"
  by (cases ev) simp_all

lemma colors_run:
  "assigned_colors (outputs tr s) =
     map (\<lambda>k. userColors ! ((colorIndex s + k) mod 8)) [0..<connections tr]
   \<and> colorIndex (run tr s) = colorIndex s + connections tr"
proof (induction tr arbitrary: s)
  case Nil
  then show ?case by simp
next
  case (Cons e tr)
  obtain sid now ev where e: "e = (sid, now, ev)" by (cases e)
  show ?case
  proof (cases "ev = Connection")
    case True
    have "map (\<lambda>k. userColors ! ((colorIndex s + k) mod 8)) [0..<Suc (connections tr)]
            = userColors ! (colorIndex s mod 8)
              # map (\<lambda>k. userColors ! ((Suc (colorIndex s) + k) mod 8)) [0..<connections tr]"
      by (simp add: upt_conv_Cons map_Suc_upt [symmetric] del: upt_Suc)
    with True e Cons.IH [of "fst (on_connection sid s)"] show ?thesis
      by (simp add: assigned_colors_append connection_step del: upt_Suc)
  next
    case False
    with e Cons.IH [of "fst (handle sid now ev s)"] show ?thesis
      by (simp add: assigned_colors_append other_step connections_step)
  qed
qed

text \<open>The names in the registry after the churn trace.\<close>

lemma churn_registry:
  "map (\<lambda>(k, u). (k, user_name u)) (users (run churn_trace initial_state)) =
     [(''c'', ''User 3''), (''d'', ''User 2''), (''e'', ''User 3'')]"
  by (simp add: churn_trace_def initial_state_def on_connection_def on_disconnect_def Let_def
        map_size_def string_of_nat.simps digit_char_def)

text \<open>A run of undo events pops that many operations and announces them last to first.\<close>

lemma undo_trace_Cons: "undo_trace ((sid, now) # senders) = (sid, now, Undo) # undo_trace senders"
  by (simp add: undo_trace_def)

lemma undo_trace_run:
  "length senders \<le> length (drawingHistory s) \<Longrightarrow>
     drawingHistory (run (undo_trace senders) s)
       = take (length (drawingHistory s) - length senders) (drawingHistory s)
   \<and> outputs (undo_trace senders) s
       = map (\<lambda>opn. (Everyone, OperationRemoved (op_id opn)))
           (rev (drop (length (drawingHistory s) - length senders) (drawingHistory s)))"
proof (induction senders arbitrary: s)
  case Nil
  then show ?case by (simp add: undo_trace_def)
next
  case (Cons x senders)
  obtain sid now where x: "x = (sid, now)" by (cases x)
  let ?h = "drawingHistory s"
  let ?k = "length ?h - Suc (length senders)"
  from Cons.prems have ne: "?h \<noteq> []" by auto
  have s': "drawingHistory (fst (on_undo s)) = butlast ?h"
    by (simp add: on_undo_def)
  have out: "snd (on_undo s) = [(Everyone, OperationRemoved (op_id (last ?h)))]"
    using ne by (simp add: on_undo_def)
  from Cons.prems have le: "length senders \<le> length (drawingHistory (fst (on_undo s)))"
    by (simp add: s')
  note ih = Cons.IH [OF le]
  have k: "length (butlast ?h) - length senders = ?k" by simp
  from ne have "0 < length ?h" by simp
  then have "?k < length ?h" by arith
  then have tk: "take ?k (butlast ?h) = take ?k ?h"
    by (rule take_butlast)
  have "drop ?k ?h = drop ?k (butlast ?h @ [last ?h])"
    using ne by simp
  also have "\<dots> = drop ?k (butlast ?h) @ [last ?h]"
    using Cons.prems by simp
  finally have dr: "rev (drop ?k ?h) = last ?h # rev (drop ?k (butlast ?h))"
    by simp
  from ih show ?case
    by (simp add: x undo_trace_Cons s' out k tk dr)
qed

section \<open>Undo and redo\<close>

text \<open>
  C1. Handling \<^verbatim>\<open>undo\<close> on a non-empty log removes exactly the last operation, whoever
  its author and whoever the sender, and emits that operation's id once, to every
  connection, the sender among them; on an empty log the state is unchanged and nothing
  is emitted.
\<close>

theorem undo_pops_tail_and_broadcasts_to_all:
  "(drawingHistory s \<noteq> [] \<longrightarrow>
      handle sid now Undo s =
        (s\<lparr>drawingHistory := butlast (drawingHistory s)\<rparr>,
         [(Everyone, OperationRemoved (op_id (last (drawingHistory s))))])
      \<and> drawingHistory (fst (handle sid now Undo s)) @ [last (drawingHistory s)] = drawingHistory s
      \<and> recipients conns sid Everyone = conns
      \<and> (sid \<in> set conns \<longrightarrow> sid \<in> set (recipients conns sid Everyone)))
   \<and> (drawingHistory s = [] \<longrightarrow> handle sid now Undo s = (s, []))"
  by (simp add: on_undo_def)

text \<open>Both cases of the statement above, at a log of two operations and at the empty log.\<close>

theorem undo_pops_tail_and_broadcasts_to_all_witness:
  "drawingHistory (sample_state [sample_op ''p'' ''a'', sample_op ''q'' ''b'']) \<noteq> []
   \<and> handle ''c'' 9 Undo (sample_state [sample_op ''p'' ''a'', sample_op ''q'' ''b'']) =
       (sample_state [sample_op ''p'' ''a''], [(Everyone, OperationRemoved ''q'')])
   \<and> ''c'' \<in> set [''a'', ''c'']
   \<and> ''c'' \<in> set (recipients [''a'', ''c''] ''c'' Everyone)
   \<and> drawingHistory (sample_state []) = []
   \<and> handle ''c'' 9 Undo (sample_state []) = (sample_state [], [])"
  using undo_pops_tail_and_broadcasts_to_all
          [of "sample_state [sample_op ''p'' ''a'', sample_op ''q'' ''b'']" "''c''" 9 "[''a'', ''c'']"]
        undo_pops_tail_and_broadcasts_to_all [of "sample_state []" "''c''" 9 "[]"]
  by (simp add: sample_state_def sample_op_def)

text \<open>
  C2, as amended. On a non-empty log, \<^verbatim>\<open>undo\<close> followed at once by a \<^verbatim>\<open>redo\<close> that
  supplies the operation just removed gives back the log as it was: the length is the
  one before the undo and the operation is the last entry, which is the index it had
  before the undo. A \<^verbatim>\<open>redo\<close> in any state appends exactly the operation the client
  supplies and emits it to every connection.
\<close>

theorem undo_then_redo_restores_log:
  "drawingHistory s \<noteq> [] \<Longrightarrow>
     drawingHistory (run [(sid, now, Undo), (sid', now', Redo (last (drawingHistory s)))] s)
       = drawingHistory s
   \<and> length (drawingHistory
         (run [(sid, now, Undo), (sid', now', Redo (last (drawingHistory s)))] s))
       = length (drawingHistory s)
   \<and> last (drawingHistory
         (run [(sid, now, Undo), (sid', now', Redo (last (drawingHistory s)))] s))
       = last (drawingHistory s)
   \<and> handle sid' now' (Redo opn) s' =
       (s'\<lparr>drawingHistory := drawingHistory s' @ [opn]\<rparr>, [(Everyone, OperationAdded opn)])
   \<and> recipients conns sid' Everyone = conns"
  by (simp add: on_undo_def on_redo_def)

theorem undo_then_redo_restores_log_witness:
  "drawingHistory (sample_state [sample_op ''p'' ''a'', sample_op ''q'' ''b'']) \<noteq> []
   \<and> drawingHistory (run [(''a'', 1, Undo), (''a'', 2, Redo (sample_op ''q'' ''b''))]
        (sample_state [sample_op ''p'' ''a'', sample_op ''q'' ''b'']))
       = [sample_op ''p'' ''a'', sample_op ''q'' ''b'']"
  using undo_then_redo_restores_log
          [of "sample_state [sample_op ''p'' ''a'', sample_op ''q'' ''b'']" "''a''" 1 "''a''" 2]
  by (simp add: sample_state_def on_undo_def on_redo_def)

text \<open>
  The claim as written has the operation end up "not at its original index". Two strokes
  are started, the second is undone and redone at once: the log is the one before the
  undo, and the operation is found at the index where it was.
\<close>

theorem undo_then_redo_same_index_counterexample:
  "drawingHistory (run (two_strokes @ [(''a'', 1, Undo), (''a'', 2, Redo (sample_op ''q'' ''a''))])
       initial_state)
     = drawingHistory (run two_strokes initial_state)
   \<and> \<not> (length (drawingHistory
              (run (two_strokes @ [(''a'', 1, Undo), (''a'', 2, Redo (sample_op ''q'' ''a''))])
                 initial_state))
            = length (drawingHistory (run two_strokes initial_state))
          \<and> last (drawingHistory
              (run (two_strokes @ [(''a'', 1, Undo), (''a'', 2, Redo (sample_op ''q'' ''a''))])
                 initial_state))
            = sample_op ''q'' ''a''
          \<and> index_of (sample_op ''q'' ''a'')
               (drawingHistory
                 (run (two_strokes @ [(''a'', 1, Undo), (''a'', 2, Redo (sample_op ''q'' ''a''))])
                    initial_state))
            \<noteq> index_of (sample_op ''q'' ''a'') (drawingHistory (run two_strokes initial_state)))"
  by (simp add: two_strokes_def initial_state_def on_draw_start_def draw_start_operation_def
        sample_start_def on_undo_def on_redo_def index_of_def sample_op_def Let_def)

section \<open>The order of the log\<close>

text \<open>
  C3, as amended. In every state reachable from the empty server, the operations of the
  log, read without their points, appear in the arrival order of the events that
  appended them, which are \<^verbatim>\<open>draw-start\<close>, \<^verbatim>\<open>erase\<close> and \<^verbatim>\<open>redo\<close>; when the trace
  has no \<^verbatim>\<open>redo\<close>, that is the arrival order of the start events alone.
\<close>

theorem log_order_is_append_order:
  "subseq (map op_header (drawingHistory (run tr initial_state))) (map op_header (appended tr))
   \<and> (no_redo tr \<longrightarrow>
        subseq (map op_header (drawingHistory (run tr initial_state)))
               (map op_header (started tr)))"
proof -
  have "subseq (map op_header (drawingHistory (run tr initial_state)))
               (map op_header (appended tr))"
    using headers_run [of tr initial_state] by (simp add: initial_state_def)
  then show ?thesis by (auto simp: appended_no_redo)
qed

theorem log_order_is_append_order_witness:
  "no_redo [(''a'', 0, DrawStart (sample_start ''p'' ''a'')),
            (''b'', 1, DrawStart (sample_start ''q'' ''b'')),
            (''a'', 2, Undo),
            (''b'', 3, EraseEv \<lparr>er_operationId = ''e'', er_points = []\<rparr>)]
   \<and> subseq
        (map op_header (drawingHistory (run
           [(''a'', 0, DrawStart (sample_start ''p'' ''a'')),
            (''b'', 1, DrawStart (sample_start ''q'' ''b'')),
            (''a'', 2, Undo),
            (''b'', 3, EraseEv \<lparr>er_operationId = ''e'', er_points = []\<rparr>)] initial_state)))
        (map op_header (started
           [(''a'', 0, DrawStart (sample_start ''p'' ''a'')),
            (''b'', 1, DrawStart (sample_start ''q'' ''b'')),
            (''a'', 2, Undo),
            (''b'', 3, EraseEv \<lparr>er_operationId = ''e'', er_points = []\<rparr>)]))"
  using log_order_is_append_order
          [of "[(''a'', 0, DrawStart (sample_start ''p'' ''a'')),
            (''b'', 1, DrawStart (sample_start ''q'' ''b'')),
            (''a'', 2, Undo),
            (''b'', 3, EraseEv \<lparr>er_operationId = ''e'', er_points = []\<rparr>)]"]
  by (simp add: no_redo_def)

text \<open>
  With \<^verbatim>\<open>redo\<close> the order of the start events is not kept: strokes p and q start in
  that order, both are undone, and q is redone before p.
\<close>

theorem redo_reorders_log_counterexample:
  "map op_id (drawingHistory (run reorder_trace initial_state)) = [''q'', ''p'']
   \<and> map op_id (started reorder_trace) = [''p'', ''q'']
   \<and> \<not> subseq (map op_header (drawingHistory (run reorder_trace initial_state)))
                (map op_header (started reorder_trace))"
  by (simp add: reorder_trace_def initial_state_def on_draw_start_def on_undo_def on_redo_def
        draw_start_operation_def sample_start_def sample_op_def op_header_def Let_def
        subseq_Cons2_iff)

section \<open>Drawing events\<close>

text \<open>
  C4. A \<^verbatim>\<open>draw-move\<close> whose id some operation of the log bears appends its points to
  an operation with that id and changes nothing else; one whose id no operation bears
  leaves the whole state as it is. In both cases the only emission is the payload as
  received, to every connection but the sender.
\<close>

theorem draw_move_appends_or_drops:
  "((\<exists>opn\<in>set (drawingHistory s). op_id opn = dm_operationId d) \<longrightarrow>
      (\<exists>i<length (drawingHistory s).
          op_id (drawingHistory s ! i) = dm_operationId d
        \<and> fst (handle sid now (DrawMove d) s) =
            s\<lparr>drawingHistory := (drawingHistory s)
                 [i := (drawingHistory s ! i)
                         \<lparr>op_points := op_points (drawingHistory s ! i) @ dm_points d\<rparr>]\<rparr>))
   \<and> ((\<forall>opn\<in>set (drawingHistory s). op_id opn \<noteq> dm_operationId d) \<longrightarrow>
        fst (handle sid now (DrawMove d) s) = s)
   \<and> snd (handle sid now (DrawMove d) s) = [(AllButSender, DrawMoveMsg d)]
   \<and> set (recipients conns sid AllButSender) = set conns - {sid}"
proof -
  let ?P = "\<lambda>opn. op_id opn = dm_operationId d"
  have found: "\<exists>i<length (drawingHistory s).
          op_id (drawingHistory s ! i) = dm_operationId d
        \<and> fst (handle sid now (DrawMove d) s) =
            s\<lparr>drawingHistory := (drawingHistory s)
                 [i := (drawingHistory s ! i)
                         \<lparr>op_points := op_points (drawingHistory s ! i) @ dm_points d\<rparr>]\<rparr>"
    if "\<exists>opn\<in>set (drawingHistory s). ?P opn"
  proof -
    from that have "find_first ?P (drawingHistory s) \<noteq> None"
      by (simp add: find_first_None_iff)
    then obtain i where i: "find_first ?P (drawingHistory s) = Some i" by auto
    then have "i < length (drawingHistory s)" "?P (drawingHistory s ! i)"
      by (simp_all add: find_first_Some_iff)
    moreover from i have "fst (handle sid now (DrawMove d) s) =
            s\<lparr>drawingHistory := (drawingHistory s)
                 [i := (drawingHistory s ! i)
                         \<lparr>op_points := op_points (drawingHistory s ! i) @ dm_points d\<rparr>]\<rparr>"
      by (simp add: on_draw_move_def Let_def)
    ultimately show ?thesis by blast
  qed
  have missing: "fst (handle sid now (DrawMove d) s) = s"
    if "\<forall>opn\<in>set (drawingHistory s). op_id opn \<noteq> dm_operationId d"
  proof -
    from that have "find_first ?P (drawingHistory s) = None"
      by (simp add: find_first_None_iff)
    then show ?thesis by (simp add: on_draw_move_def Let_def)
  qed
  have out: "snd (handle sid now (DrawMove d) s) = [(AllButSender, DrawMoveMsg d)]"
    by (simp add: on_draw_move_def Let_def)
  have rcp: "set (recipients conns sid AllButSender) = set conns - {sid}"
    by auto
  from found missing out rcp show ?thesis by blast
qed

theorem draw_move_appends_or_drops_witness:
  "(\<exists>opn\<in>set (drawingHistory (sample_state [sample_op ''p'' ''a'', sample_op ''q'' ''b''])).
       op_id opn = dm_operationId \<lparr>dm_operationId = ''q'', dm_points = [sample_point 1 2]\<rparr>)
   \<and> handle ''b'' 5 (DrawMove \<lparr>dm_operationId = ''q'', dm_points = [sample_point 1 2]\<rparr>)
        (sample_state [sample_op ''p'' ''a'', sample_op ''q'' ''b'']) =
       (sample_state [sample_op ''p'' ''a'',
                      (sample_op ''q'' ''b'')\<lparr>op_points := [sample_point 1 2]\<rparr>],
        [(AllButSender, DrawMoveMsg \<lparr>dm_operationId = ''q'', dm_points = [sample_point 1 2]\<rparr>)])
   \<and> \<not> (\<exists>opn\<in>set (drawingHistory (sample_state [sample_op ''p'' ''a'', sample_op ''q'' ''b''])).
       op_id opn = dm_operationId \<lparr>dm_operationId = ''z'', dm_points = [sample_point 1 2]\<rparr>)
   \<and> handle ''b'' 5 (DrawMove \<lparr>dm_operationId = ''z'', dm_points = [sample_point 1 2]\<rparr>)
        (sample_state [sample_op ''p'' ''a'', sample_op ''q'' ''b'']) =
       (sample_state [sample_op ''p'' ''a'', sample_op ''q'' ''b''],
        [(AllButSender, DrawMoveMsg \<lparr>dm_operationId = ''z'', dm_points = [sample_point 1 2]\<rparr>)])"
  using draw_move_appends_or_drops
          [of "sample_state [sample_op ''p'' ''a'', sample_op ''q'' ''b'']"
              "\<lparr>dm_operationId = ''q'', dm_points = [sample_point 1 2]\<rparr>" "''b''" 5 "[]"]
        draw_move_appends_or_drops
          [of "sample_state [sample_op ''p'' ''a'', sample_op ''q'' ''b'']"
              "\<lparr>dm_operationId = ''z'', dm_points = [sample_point 1 2]\<rparr>" "''b''" 5 "[]"]
  by (simp add: sample_state_def sample_op_def on_draw_move_def Let_def)

text \<open>
  C5, as amended. An \<^verbatim>\<open>erase\<close> appends one operation of kind erase with the colour
  \<^verbatim>\<open>#FFFFFF\<close> and relays that operation to every connection but the sender. Its stroke
  width is the radius of the first point when the list is non-empty and that radius is
  present and not zero, and 20 when the list is empty or the first point has no radius.
\<close>

theorem erase_appends_sentinel_operation:
  "handle sid now (EraseEv d) s =
     (s\<lparr>drawingHistory := drawingHistory s @ [erase_operation sid now d]\<rparr>,
      [(AllButSender, EraseMsg (erase_operation sid now d))])
   \<and> op_id (erase_operation sid now d) = er_operationId d
   \<and> op_type (erase_operation sid now d) = Erase
   \<and> op_color (erase_operation sid now d) = ''#FFFFFF''
   \<and> (\<forall>p ps r. er_points d = p # ps \<and> ep_radius p = Some r \<and> r \<noteq> 0 \<longrightarrow>
         op_strokeWidth (erase_operation sid now d) = r)
   \<and> (er_points d = [] \<longrightarrow> op_strokeWidth (erase_operation sid now d) = 20)
   \<and> (\<forall>p ps. er_points d = p # ps \<and> ep_radius p = None \<longrightarrow>
         op_strokeWidth (erase_operation sid now d) = 20)
   \<and> set (recipients conns sid AllButSender) = set conns - {sid}"
  by (auto simp: on_erase_def erase_operation_def erase_strokeWidth_def Let_def)

theorem erase_appends_sentinel_operation_witness:
  "handle ''a'' 7 (EraseEv \<lparr>er_operationId = ''e'',
        er_points = [\<lparr>ep_x = 1, ep_y = 2, ep_radius = Some 12\<rparr>,
                     \<lparr>ep_x = 3, ep_y = 4, ep_radius = Some 5\<rparr>]\<rparr>) initial_state =
     (\<lparr>drawingHistory =
         [\<lparr>op_id = ''e'', op_userId = ''a'', op_type = Erase,
           op_points = [sample_point 1 2, sample_point 3 4],
           op_color = ''#FFFFFF'', op_strokeWidth = 12, op_timestamp = 7\<rparr>],
       users = [], colorIndex = 0\<rparr>,
      [(AllButSender, EraseMsg
         \<lparr>op_id = ''e'', op_userId = ''a'', op_type = Erase,
          op_points = [sample_point 1 2, sample_point 3 4],
          op_color = ''#FFFFFF'', op_strokeWidth = 12, op_timestamp = 7\<rparr>)])
   \<and> op_strokeWidth (erase_operation ''a'' 7 \<lparr>er_operationId = ''e'', er_points = []\<rparr>) = 20
   \<and> op_strokeWidth (erase_operation ''a'' 7 \<lparr>er_operationId = ''e'',
         er_points = [\<lparr>ep_x = 1, ep_y = 2, ep_radius = None\<rparr>]\<rparr>) = 20"
  using erase_appends_sentinel_operation
          [of "''a''" 7 "\<lparr>er_operationId = ''e'',
                er_points = [\<lparr>ep_x = 1, ep_y = 2, ep_radius = Some 12\<rparr>,
                             \<lparr>ep_x = 3, ep_y = 4, ep_radius = Some 5\<rparr>]\<rparr>" initial_state "[]"]
        erase_appends_sentinel_operation
          [of "''a''" 7 "\<lparr>er_operationId = ''e'', er_points = []\<rparr>" initial_state "[]"]
        erase_appends_sentinel_operation
          [of "''a''" 7 "\<lparr>er_operationId = ''e'',
                er_points = [\<lparr>ep_x = 1, ep_y = 2, ep_radius = None\<rparr>]\<rparr>" initial_state "[]"]
  by (simp add: initial_state_def erase_operation_def sample_point_def)

text \<open>
  The claim as written has the stroke width equal the first radius whenever it is
  present. A radius of 0 is present and falsy, and the width is 20.
\<close>

theorem erase_radius_zero_counterexample:
  "op_strokeWidth (last (drawingHistory (fst (handle ''a'' 7
       (EraseEv \<lparr>er_operationId = ''e'',
                 er_points = [\<lparr>ep_x = 1, ep_y = 2, ep_radius = Some 0\<rparr>]\<rparr>)
       initial_state)))) = 20
   \<and> \<not> (op_strokeWidth (last (drawingHistory (fst (handle ''a'' 7
         (EraseEv \<lparr>er_operationId = ''e'',
                   er_points = [\<lparr>ep_x = 1, ep_y = 2, ep_radius = Some 0\<rparr>]\<rparr>)
         initial_state)))) = 0)"
  by (simp add: on_erase_def erase_operation_def erase_strokeWidth_def initial_state_def Let_def)

section \<open>Joining\<close>

text \<open>
  C6. Over any trace from the empty server, the colour announced to the n-th connection
  is entry (n - 1) mod 8 of the palette, and the colour index equals the number of
  connections so far, whatever else happened in between; so with nine connections the
  ninth colour is the first.
\<close>

theorem nth_connection_color:
  "length (assigned_colors (outputs tr initial_state)) = connections tr
   \<and> (\<forall>n. 1 \<le> n \<and> n \<le> connections tr \<longrightarrow>
         assigned_colors (outputs tr initial_state) ! (n - 1) = userColors ! ((n - 1) mod 8))
   \<and> colorIndex (run tr initial_state) = connections tr
   \<and> (9 \<le> connections tr \<longrightarrow>
         assigned_colors (outputs tr initial_state) ! 8
           = assigned_colors (outputs tr initial_state) ! 0)"
proof -
  have eq: "assigned_colors (outputs tr initial_state) =
              map (\<lambda>k. userColors ! (k mod 8)) [0..<connections tr]"
    and ci: "colorIndex (run tr initial_state) = connections tr"
    using colors_run [of tr initial_state] by (simp_all add: initial_state_def)
  from eq have len: "length (assigned_colors (outputs tr initial_state)) = connections tr"
    by simp
  have nth: "assigned_colors (outputs tr initial_state) ! (n - 1) = userColors ! ((n - 1) mod 8)"
    if "1 \<le> n \<and> n \<le> connections tr" for n
  proof -
    from that have "n - 1 < connections tr" by arith
    then show ?thesis by (simp add: eq)
  qed
  have wrap: "assigned_colors (outputs tr initial_state) ! 8
           = assigned_colors (outputs tr initial_state) ! 0"
    if "9 \<le> connections tr"
    using that by (simp add: eq)
  from len nth ci wrap show ?thesis by blast
qed

theorem nth_connection_color_witness:
  "9 \<le> connections nine_connections
   \<and> assigned_colors (outputs nine_connections initial_state) ! 8
       = assigned_colors (outputs nine_connections initial_state) ! 0
   \<and> assigned_colors (outputs nine_connections initial_state) ! (9 - 1) = ''#FF6B6B''
   \<and> colorIndex (run nine_connections initial_state) = 9"
proof -
  have c: "connections nine_connections = 9"
    by (simp add: nine_connections_def)
  note t = nth_connection_color [of nine_connections]
  from t c have wrap: "assigned_colors (outputs nine_connections initial_state) ! 8
       = assigned_colors (outputs nine_connections initial_state) ! 0"
    by simp
  from t have "\<forall>n. 1 \<le> n \<and> n \<le> connections nine_connections \<longrightarrow>
         assigned_colors (outputs nine_connections initial_state) ! (n - 1)
           = userColors ! ((n - 1) mod 8)"
    by blast
  from this [rule_format, of 9] c
  have ninth: "assigned_colors (outputs nine_connections initial_state) ! (9 - 1) = ''#FF6B6B''"
    by (simp add: userColors_def)
  from t c have "colorIndex (run nine_connections initial_state) = 9"
    by simp
  with c wrap ninth show ?thesis by simp
qed

text \<open>
  C7. A joining user is named "User " followed by the size of the registry at that moment
  plus one. After three joins, the departure of the first two users and two more joins,
  the users c and e are both in the registry and both named "User 3".
\<close>

theorem join_name_is_registry_size_plus_one:
  "handle sid now Connection s =
     (s\<lparr>colorIndex := colorIndex s + 1,
        users := map_set (users s) sid
          \<lparr>user_id = sid, user_name = ''User '' @ string_of_nat (map_size (users s) + 1),
           user_color = userColors ! (colorIndex s mod 8), user_cursor = None\<rparr>\<rparr>,
      [(ToSender, UserAssigned sid (userColors ! (colorIndex s mod 8))
                    (''User '' @ string_of_nat (map_size (users s) + 1))),
       (ToSender, InitialState
          (map_values (map_set (users s) sid
             \<lparr>user_id = sid, user_name = ''User '' @ string_of_nat (map_size (users s) + 1),
              user_color = userColors ! (colorIndex s mod 8), user_cursor = None\<rparr>))
          (drawingHistory s)),
       (AllButSender, UserJoined
          \<lparr>user_id = sid, user_name = ''User '' @ string_of_nat (map_size (users s) + 1),
           user_color = userColors ! (colorIndex s mod 8), user_cursor = None\<rparr>)])
   \<and> (\<exists>u. map_get (users (fst (handle sid now Connection s))) sid = Some u
          \<and> user_name u = ''User '' @ string_of_nat (map_size (users s) + 1))
   \<and> (\<exists>u v. map_get (users (run churn_trace initial_state)) ''c'' = Some u
            \<and> map_get (users (run churn_trace initial_state)) ''e'' = Some v
            \<and> user_id u \<noteq> user_id v
            \<and> user_name u = user_name v)"
proof -
  have churn: "\<exists>u v. map_get (users (run churn_trace initial_state)) ''c'' = Some u
            \<and> map_get (users (run churn_trace initial_state)) ''e'' = Some v
            \<and> user_id u \<noteq> user_id v
            \<and> user_name u = user_name v"
    by (simp add: churn_trace_def initial_state_def on_connection_def on_disconnect_def Let_def
        map_size_def string_of_nat.simps digit_char_def)
  let ?user = "\<lparr>user_id = sid, user_name = ''User '' @ string_of_nat (map_size (users s) + 1),
           user_color = userColors ! (colorIndex s mod 8), user_cursor = None\<rparr>"
  have step: "handle sid now Connection s =
     (s\<lparr>colorIndex := colorIndex s + 1, users := map_set (users s) sid ?user\<rparr>,
      [(ToSender, UserAssigned sid (userColors ! (colorIndex s mod 8))
                    (''User '' @ string_of_nat (map_size (users s) + 1))),
       (ToSender, InitialState (map_values (map_set (users s) sid ?user)) (drawingHistory s)),
       (AllButSender, UserJoined ?user)])"
    by (simp add: on_connection_def Let_def userColors_def)
  have entry: "\<exists>u. map_get (users (fst (handle sid now Connection s))) sid = Some u
          \<and> user_name u = ''User '' @ string_of_nat (map_size (users s) + 1)"
    by (simp add: step map_get_map_set_same del: handle.simps)
  show ?thesis
    by (rule conjI [OF step conjI [OF entry churn]])
qed

section \<open>Presence\<close>

text \<open>
  C8. A \<^verbatim>\<open>cursor-move\<close> from a registered user stores the cursor in that user's entry,
  leaves every other entry alone, and emits the cursor with the user's id, name and
  colour to the connections other than the sender, never to the sender.
\<close>

theorem cursor_move_updates_and_relays:
  "map_get (users s) sid = Some u \<Longrightarrow>
     handle sid now (CursorMove c) s =
       (s\<lparr>users := map_set (users s) sid (u\<lparr>user_cursor := Some c\<rparr>)\<rparr>,
        [(AllButSender, UserCursor sid c (user_id u) (user_name u) (user_color u))])
   \<and> map_get (users (fst (handle sid now (CursorMove c) s))) sid
       = Some (u\<lparr>user_cursor := Some c\<rparr>)
   \<and> (\<forall>k. k \<noteq> sid \<longrightarrow>
         map_get (users (fst (handle sid now (CursorMove c) s))) k = map_get (users s) k)
   \<and> set (recipients conns sid AllButSender) = set conns - {sid}
   \<and> sid \<notin> set (recipients conns sid AllButSender)"
  by (simp add: on_cursor_move_def map_get_map_set_same map_get_map_set_other set_diff_eq)

theorem cursor_move_updates_and_relays_witness:
  "map_get (users (fst (handle ''a'' 0 Connection initial_state))) ''a''
     = Some \<lparr>user_id = ''a'', user_name = ''User 1'', user_color = ''#FF6B6B'', user_cursor = None\<rparr>
   \<and> handle ''a'' 1 (CursorMove \<lparr>cur_x = 3, cur_y = 4\<rparr>)
         (fst (handle ''a'' 0 Connection initial_state)) =
       (\<lparr>drawingHistory = [],
         users = [(''a'', \<lparr>user_id = ''a'', user_name = ''User 1'', user_color = ''#FF6B6B'',
                          user_cursor = Some \<lparr>cur_x = 3, cur_y = 4\<rparr>\<rparr>)],
         colorIndex = 1\<rparr>,
        [(AllButSender, UserCursor ''a'' \<lparr>cur_x = 3, cur_y = 4\<rparr> ''a'' ''User 1'' ''#FF6B6B'')])
   \<and> recipients [''a'', ''b'', ''c''] ''a'' AllButSender = [''b'', ''c'']"
  using cursor_move_updates_and_relays
          [of "fst (handle ''a'' 0 Connection initial_state)" "''a''"
              "\<lparr>user_id = ''a'', user_name = ''User 1'', user_color = ''#FF6B6B'', user_cursor = None\<rparr>"
              1 "\<lparr>cur_x = 3, cur_y = 4\<rparr>" "[''a'', ''b'', ''c'']"]
  by (simp add: initial_state_def on_connection_def Let_def userColors_def map_size_def
        string_of_nat.simps digit_char_def)

text \<open>
  C9. A \<^verbatim>\<open>disconnect\<close> removes the entry of the departing user and no other, announces
  the departure to the other connections, and leaves the log as it is. Every operation
  of the log, whoever its author, is still removed by as many \<^verbatim>\<open>undo\<close> events as
  there are operations from it to the end of the log, and the last of them announces its
  id to every connection.
\<close>

theorem disconnect_keeps_log:
  "handle sid now Disconnect s =
     (s\<lparr>users := map_delete (users s) sid\<rparr>, [(AllButSender, UserLeft sid)])
   \<and> map_get (users (fst (handle sid now Disconnect s))) sid = None
   \<and> (\<forall>k. k \<noteq> sid \<longrightarrow>
         map_get (users (fst (handle sid now Disconnect s))) k = map_get (users s) k)
   \<and> drawingHistory (fst (handle sid now Disconnect s)) = drawingHistory s
   \<and> set (recipients conns sid AllButSender) = set conns - {sid}
   \<and> (\<forall>i senders. i < length (drawingHistory s)
           \<and> length senders = length (drawingHistory s) - i \<longrightarrow>
         drawingHistory (run (undo_trace senders) (fst (handle sid now Disconnect s)))
           = take i (drawingHistory s)
         \<and> last (outputs (undo_trace senders) (fst (handle sid now Disconnect s)))
           = (Everyone, OperationRemoved (op_id (drawingHistory s ! i))))"
proof -
  let ?s' = "fst (handle sid now Disconnect s)"
  have step: "handle sid now Disconnect s =
     (s\<lparr>users := map_delete (users s) sid\<rparr>, [(AllButSender, UserLeft sid)])"
    by (simp add: on_disconnect_def)
  have gone: "map_get (users ?s') sid = None"
    by (simp add: on_disconnect_def map_get_map_delete_same)
  have others: "\<forall>k. k \<noteq> sid \<longrightarrow> map_get (users ?s') k = map_get (users s) k"
    by (simp add: on_disconnect_def map_get_map_delete_other)
  have log: "drawingHistory ?s' = drawingHistory s"
    by (simp add: on_disconnect_def)
  have rcp: "set (recipients conns sid AllButSender) = set conns - {sid}"
    by auto
  have undo: "drawingHistory (run (undo_trace senders) ?s') = take i (drawingHistory s)
         \<and> last (outputs (undo_trace senders) ?s')
           = (Everyone, OperationRemoved (op_id (drawingHistory s ! i)))"
    if "i < length (drawingHistory s) \<and> length senders = length (drawingHistory s) - i"
    for i senders
  proof -
    from that have i: "i < length (drawingHistory s)"
      and n: "length (drawingHistory s) - length senders = i"
      and le: "length senders \<le> length (drawingHistory ?s')"
      by (simp_all add: on_disconnect_def)
    have "drop i (drawingHistory s) \<noteq> []" using i by simp
    then have "last (rev (drop i (drawingHistory s))) = drawingHistory s ! i"
      using i by (simp add: last_rev hd_drop_conv_nth)
    with undo_trace_run [OF le] n i show ?thesis
      by (simp add: on_disconnect_def last_map)
  qed
  from step gone others log rcp undo show ?thesis by blast
qed

theorem disconnect_keeps_log_witness:
  "(1::nat) < length (drawingHistory (sample_state [sample_op ''p'' ''a'', sample_op ''q'' ''b'', sample_op ''r'' ''c'']))
   \<and> length [(''c'', 5::nat), (''c'', 6)]
       = length (drawingHistory (sample_state [sample_op ''p'' ''a'', sample_op ''q'' ''b'', sample_op ''r'' ''c''])) - 1
   \<and> drawingHistory (fst (handle ''b'' 4 Disconnect
         (sample_state [sample_op ''p'' ''a'', sample_op ''q'' ''b'', sample_op ''r'' ''c''])))
       = [sample_op ''p'' ''a'', sample_op ''q'' ''b'', sample_op ''r'' ''c'']
   \<and> drawingHistory (run (undo_trace [(''c'', 5), (''c'', 6)])
        (fst (handle ''b'' 4 Disconnect
           (sample_state [sample_op ''p'' ''a'', sample_op ''q'' ''b'', sample_op ''r'' ''c'']))))
       = [sample_op ''p'' ''a'']
   \<and> last (outputs (undo_trace [(''c'', 5), (''c'', 6)])
        (fst (handle ''b'' 4 Disconnect
           (sample_state [sample_op ''p'' ''a'', sample_op ''q'' ''b'', sample_op ''r'' ''c'']))))
       = (Everyone, OperationRemoved ''q'')"
  using disconnect_keeps_log
          [of "''b''" 4 "sample_state [sample_op ''p'' ''a'', sample_op ''q'' ''b'', sample_op ''r'' ''c'']" "[]"]
  by (simp add: sample_state_def sample_op_def on_disconnect_def on_undo_def undo_trace_def)

section \<open>Operations that share an id\<close>

text \<open>
  C10. A \<^verbatim>\<open>draw-start\<close> appends its operation whatever ids the log holds, so two
  operations of the log can bear one id. A \<^verbatim>\<open>draw-move\<close> for an id that the
  operations at i and at a later j both bear, i being the first such index, appends its
  points to the operation at i only; the operation at j is unchanged.
\<close>

theorem duplicate_ids_first_match_only:
  "handle sid now (DrawStart d) s =
     (s\<lparr>drawingHistory := drawingHistory s @ [draw_start_operation now d]\<rparr>,
      [(AllButSender, DrawStartMsg (draw_start_operation now d))])
   \<and> op_id (draw_start_operation now d) = ds_id d
   \<and> map op_id (drawingHistory (run [(''a'', 0, DrawStart (sample_start ''p'' ''a'')),
                                      (''b'', 1, DrawStart (sample_start ''p'' ''b''))]
                                     initial_state)) = [''p'', ''p'']
   \<and> (\<forall>i j. i < j \<and> j < length (drawingHistory s)
           \<and> op_id (drawingHistory s ! i) = dm_operationId m
           \<and> (\<forall>k<i. op_id (drawingHistory s ! k) \<noteq> dm_operationId m)
           \<and> op_id (drawingHistory s ! j) = dm_operationId m \<longrightarrow>
         drawingHistory (fst (handle sid' now' (DrawMove m) s)) =
           (drawingHistory s)
             [i := (drawingHistory s ! i)
                     \<lparr>op_points := op_points (drawingHistory s ! i) @ dm_points m\<rparr>]
         \<and> drawingHistory (fst (handle sid' now' (DrawMove m) s)) ! j = drawingHistory s ! j)"
proof -
  have start: "handle sid now (DrawStart d) s =
     (s\<lparr>drawingHistory := drawingHistory s @ [draw_start_operation now d]\<rparr>,
      [(AllButSender, DrawStartMsg (draw_start_operation now d))])"
    by (simp add: on_draw_start_def Let_def)
  have ident: "op_id (draw_start_operation now d) = ds_id d"
    by (simp add: draw_start_operation_def)
  have dup: "map op_id (drawingHistory (run [(''a'', 0, DrawStart (sample_start ''p'' ''a'')),
                                      (''b'', 1, DrawStart (sample_start ''p'' ''b''))]
                                     initial_state)) = [''p'', ''p'']"
    by (simp add: initial_state_def on_draw_start_def draw_start_operation_def sample_start_def
          Let_def)
  have move: "drawingHistory (fst (handle sid' now' (DrawMove m) s)) =
           (drawingHistory s)
             [i := (drawingHistory s ! i)
                     \<lparr>op_points := op_points (drawingHistory s ! i) @ dm_points m\<rparr>]
         \<and> drawingHistory (fst (handle sid' now' (DrawMove m) s)) ! j = drawingHistory s ! j"
    if "i < j \<and> j < length (drawingHistory s)
           \<and> op_id (drawingHistory s ! i) = dm_operationId m
           \<and> (\<forall>k<i. op_id (drawingHistory s ! k) \<noteq> dm_operationId m)
           \<and> op_id (drawingHistory s ! j) = dm_operationId m"
    for i j
  proof -
    from that have "find_first (\<lambda>opn. op_id opn = dm_operationId m) (drawingHistory s) = Some i"
      by (simp add: find_first_Some_iff)
    with that show ?thesis
      by (simp add: on_draw_move_def Let_def)
  qed
  from start ident dup move show ?thesis by blast
qed

theorem duplicate_ids_first_match_only_witness:
  "(0::nat) < 2 \<and> 2 < length (drawingHistory
        (sample_state [sample_op ''p'' ''a'', sample_op ''q'' ''b'', sample_op ''p'' ''c'']))
   \<and> drawingHistory (fst (handle ''c'' 5
         (DrawMove \<lparr>dm_operationId = ''p'', dm_points = [sample_point 1 2]\<rparr>)
         (sample_state [sample_op ''p'' ''a'', sample_op ''q'' ''b'', sample_op ''p'' ''c''])))
       = [(sample_op ''p'' ''a'')\<lparr>op_points := [sample_point 1 2]\<rparr>,
          sample_op ''q'' ''b'', sample_op ''p'' ''c'']"
  using duplicate_ids_first_match_only
          [of "''c''" 5 "sample_start ''z'' ''c''"
              "sample_state [sample_op ''p'' ''a'', sample_op ''q'' ''b'', sample_op ''p'' ''c'']"
              "\<lparr>dm_operationId = ''p'', dm_points = [sample_point 1 2]\<rparr>" "''c''" 5]
  by (simp add: sample_state_def sample_op_def on_draw_move_def Let_def)

end
